theory Spec2Isabelle
  imports Main "HOL-Library.Word" "HOL-Library.AList" "HOL-Library.Multiset"
begin

section \<open>JavaScript values used by the registration form\<close>

text \<open>
  A JavaScript string is a sequence of 16-bit code units, and the two regular expressions of
  \<^verbatim>\<open>validateForm\<close> carry no \<^verbatim>\<open>u\<close> flag, so they read a string one code unit
  at a time. String literals of the source are written with \<open>js\<close>.
\<close>

type_synonym jschar = "16 word"
type_synonym jsstring = "jschar list"

definition js :: "string \<Rightarrow> jsstring" where
  "js s = map of_char s"

text \<open>
  The draft is a \<^verbatim>\<open>Record<string, any>\<close>. The controls of \<^verbatim>\<open>renderField\<close> store
  a string (\<^verbatim>\<open>e.target.value\<close>, a radio option) or an array of strings (the checkbox
  group); a key never written reads as \<^verbatim>\<open>undefined\<close>, which is \<open>None\<close> here.
\<close>

datatype jsvalue = Str jsstring | Arr "jsstring list"

text \<open>
  A record is an association list in insertion order: \<open>map_of\<close> reads a key,
  \<open>AList.update\<close> overwrites a key in place or appends a new one (as an assignment or an
  object spread followed by one computed key does), and \<open>map fst\<close> is
  \<^verbatim>\<open>Object.keys\<close>. Keys are taken to be ordinary own properties (the store's identifiers
  and labels), not names inherited from \<^verbatim>\<open>Object.prototype\<close>.
\<close>

type_synonym 'v jsrecord = "(jsstring \<times> 'v) list"

text \<open>Truthiness: \<^verbatim>\<open>undefined\<close> and the empty string are falsy, every array is truthy.\<close>

fun truthy :: "jsvalue option \<Rightarrow> bool" where
  "truthy None = False"
| "truthy (Some (Str s)) = (s \<noteq> [])"
| "truthy (Some (Arr xs)) = True"

fun truthy_str :: "jsstring option \<Rightarrow> bool" where
  "truthy_str None = False"
| "truthy_str (Some s) = (s \<noteq> [])"

text \<open>\<^verbatim>\<open>Array.prototype.join\<close> with the default separator, on an array of strings.\<close>

fun join :: "jsstring list \<Rightarrow> jsstring" where
  "join [] = []"
| "join [x] = x"
| "join (x # y # ys) = x @ js '','' @ join (y # ys)"

text \<open>\<^verbatim>\<open>ToString\<close>, which \<^verbatim>\<open>RegExp.prototype.test\<close> applies to its argument.\<close>

fun ToString :: "jsvalue option \<Rightarrow> jsstring" where
  "ToString None = js ''undefined''"
| "ToString (Some (Str s)) = s"
| "ToString (Some (Arr xs)) = join xs"

section \<open>The two regular expressions\<close>

text \<open>
  \<^verbatim>\<open>\s\<close> is the ECMAScript white space and line terminator set; \<^verbatim>\<open>\d\<close> is the ten
  ASCII digits.
\<close>

definition is_space :: "jschar \<Rightarrow> bool" where
  "is_space c \<longleftrightarrow>
     c \<in> set [0x09, 0x0A, 0x0B, 0x0C, 0x0D, 0x20, 0xA0, 0x1680, 0x2028, 0x2029,
              0x202F, 0x205F, 0x3000, 0xFEFF]
     \<or> (0x2000 \<le> c \<and> c \<le> 0x200A)"

definition is_digit :: "jschar \<Rightarrow> bool" where
  "is_digit c \<longleftrightarrow> 0x30 \<le> c \<and> c \<le> 0x39"

datatype rx_class = ClassD | ClassS | Lit jschar

datatype rx_atom = Chr jschar | OneOf "rx_class list" | NoneOf "rx_class list"

datatype rx_item = Once rx_atom | Plus rx_atom

fun in_class :: "rx_class \<Rightarrow> jschar \<Rightarrow> bool" where
  "in_class ClassD c = is_digit c"
| "in_class ClassS c = is_space c"
| "in_class (Lit k) c = (c = k)"

fun atom_ok :: "rx_atom \<Rightarrow> jschar \<Rightarrow> bool" where
  "atom_ok (Chr k) c = (c = k)"
| "atom_ok (OneOf ks) c = list_ex (\<lambda>k. in_class k c) ks"
| "atom_ok (NoneOf ks) c = (\<not> list_ex (\<lambda>k. in_class k c) ks)"

text \<open>
  A pattern \<^verbatim>\<open>/^ ... $/\<close> without flags, as a list of items. The matcher backtracks as
  the engine does: a \<^verbatim>\<open>+\<close> first takes one more character and, when the rest fails,
  stops where it is. The end of the item list is the \<^verbatim>\<open>$\<close>.
\<close>

fun matches :: "rx_item list \<Rightarrow> jsstring \<Rightarrow> bool" where
  "matches [] s = (s = [])"
| "matches (Once a # r) [] = False"
| "matches (Once a # r) (c # s) = (atom_ok a c \<and> matches r s)"
| "matches (Plus a # r) [] = False"
| "matches (Plus a # r) (c # s) = (atom_ok a c \<and> (matches (Plus a # r) s \<or> matches r s))"

definition regex_test :: "rx_item list \<Rightarrow> jsvalue option \<Rightarrow> bool" where
  "regex_test r v = matches r (ToString v)"

text \<open>\<^verbatim>\<open>/^[^\s@]+@[^\s@]+\.[^\s@]+$/\<close>\<close>

definition emailRegex :: "rx_item list" where
  "emailRegex =
     [Plus (NoneOf [ClassS, Lit 0x40]), Once (Chr 0x40),
      Plus (NoneOf [ClassS, Lit 0x40]), Once (Chr 0x2E),
      Plus (NoneOf [ClassS, Lit 0x40])]"

text \<open>\<^verbatim>\<open>/^[\d\s\-\+\(\)]+$/\<close>\<close>

definition phoneRegex :: "rx_item list" where
  "phoneRegex = [Plus (OneOf [ClassD, ClassS, Lit 0x2D, Lit 0x2B, Lit 0x28, Lit 0x29])]"

section \<open>Form definition, properties and component state\<close>

text \<open>
  The two \<^verbatim>\<open>id\<close> members are \<open>ff_id\<close> and \<open>rf_id\<close>, since \<open>id\<close> is the identity
  function of HOL.
\<close>

record FormField =
  ff_id :: jsstring
  label :: jsstring
  field_type :: jsstring
  placeholder :: jsstring
  options :: "jsstring list"
  is_required :: bool
  sort_order :: int

record RegistrationForm =
  rf_id :: jsstring
  name :: jsstring
  description :: jsstring
  success_message :: jsstring

text \<open>
  The properties of the component. \<^verbatim>\<open>onClose\<close> takes no argument and returns nothing;
  calling it is the effect \<open>OnClose\<close> below.
\<close>

record RegistrationFormModalProps =
  formId :: jsstring
  programId :: "jsstring option"
  courseId :: "jsstring option"

text \<open>
  The six state variables of the component; \<open>fields'\<close> is \<^verbatim>\<open>fields\<close>, a name the
  record package keeps for itself.
\<close>

record state =
  form :: "RegistrationForm option"
  fields' :: "FormField list"
  formData :: "jsvalue jsrecord"
  isSubmitting :: bool
  isSuccess :: bool
  errors :: "jsstring jsrecord"

definition init :: state where
  "init = \<lparr>form = None, fields' = [], formData = [], isSubmitting = False,
           isSuccess = False, errors = []\<rparr>"

text \<open>The row handed to \<^verbatim>\<open>supabase.from('form_submissions').insert\<close>.\<close>

record submission =
  form_id :: jsstring
  program_id :: "jsstring option"
  course_id :: "jsstring option"
  responses :: "jsvalue jsrecord"

text \<open>What the component does to the outside: a persistence call, or a call of \<^verbatim>\<open>onClose\<close>.\<close>

datatype effect = Insert submission | OnClose

section \<open>Loading\<close>

text \<open>
  \<^verbatim>\<open>loadForm\<close>, from the point where both reads have answered: each answer is stored only
  when it carries data.
\<close>

definition loadForm :: "RegistrationForm option \<Rightarrow> FormField list option \<Rightarrow> state \<Rightarrow> state" where
  "loadForm formData_data fieldsData_data s =
     (let s1 = (case formData_data of Some f \<Rightarrow> s\<lparr>form := Some f\<rparr> | None \<Rightarrow> s)
      in (case fieldsData_data of Some fs \<Rightarrow> s1\<lparr>fields' := fs\<rparr> | None \<Rightarrow> s1))"

section \<open>Validation\<close>

text \<open>The body of the \<^verbatim>\<open>forEach\<close> of \<^verbatim>\<open>validateForm\<close>: three independent checks in order.\<close>

definition validateField :: "jsvalue jsrecord \<Rightarrow> FormField \<Rightarrow> jsstring jsrecord \<Rightarrow> jsstring jsrecord" where
  "validateField fd field newErrors =
     (let v = map_of fd (ff_id field);
          e1 = (if is_required field \<and> \<not> truthy v
                then AList.update (ff_id field) (label field @ js '' is required'') newErrors
                else newErrors);
          e2 = (if field_type field = js ''email'' \<and> truthy v
                then (if \<not> regex_test emailRegex v
                      then AList.update (ff_id field) (js ''Please enter a valid email address'') e1
                      else e1)
                else e1);
          e3 = (if field_type field = js ''phone'' \<and> truthy v
                then (if \<not> regex_test phoneRegex v
                      then AList.update (ff_id field) (js ''Please enter a valid phone number'') e2
                      else e2)
                else e2)
      in e3)"

text \<open>The value of \<^verbatim>\<open>newErrors\<close> after the loop.\<close>

definition newErrors :: "FormField list \<Rightarrow> jsvalue jsrecord \<Rightarrow> jsstring jsrecord" where
  "newErrors fs fd = fold (validateField fd) fs []"

definition validateForm :: "state \<Rightarrow> state \<times> bool" where
  "validateForm s =
     (let errs = newErrors (fields' s) (formData s)
      in (s\<lparr>errors := errs\<rparr>, length (map fst errs) = 0))"

section \<open>Submission\<close>

text \<open>\<^verbatim>\<open>formData[field.id] || ''\<close> and \<^verbatim>\<open>programId || null\<close>.\<close>

definition or_empty :: "jsvalue option \<Rightarrow> jsvalue" where
  "or_empty v = (case v of Some x \<Rightarrow> if truthy v then x else Str [] | None \<Rightarrow> Str [])"

definition or_null :: "jsstring option \<Rightarrow> jsstring option" where
  "or_null v = (if truthy_str v then v else None)"

definition build_responses :: "FormField list \<Rightarrow> jsvalue jsrecord \<Rightarrow> jsvalue jsrecord" where
  "build_responses fs fd =
     fold (\<lambda>field resp. AList.update (label field) (or_empty (map_of fd (ff_id field))) resp) fs []"

text \<open>
  \<^verbatim>\<open>handleSubmit\<close> up to its \<^verbatim>\<open>await\<close>: the new state and the calls made. The insert
  is issued only on the path behind the early return.
\<close>

definition handleSubmit :: "RegistrationFormModalProps \<Rightarrow> state \<Rightarrow> state \<times> effect list" where
  "handleSubmit p s =
     (case validateForm s of
        (s1, ok) \<Rightarrow>
          if \<not> ok then (s1, [])
          else (s1\<lparr>isSubmitting := True\<rparr>,
                [Insert \<lparr>form_id = formId p,
                         program_id = or_null (programId p),
                         course_id = or_null (courseId p),
                         responses = build_responses (fields' s) (formData s)\<rparr>]))"

text \<open>
  The rest of \<^verbatim>\<open>handleSubmit\<close>, run when the insert has answered; \<open>error\<close> tells whether
  the answer carries an error.
\<close>

definition handleSubmit_resume :: "bool \<Rightarrow> state \<Rightarrow> state" where
  "handleSubmit_resume error s =
     (let s1 = s\<lparr>isSubmitting := False\<rparr>
      in if \<not> error then s1\<lparr>isSuccess := True\<rparr> else s1)"

section \<open>Editing\<close>

definition handleFieldChange :: "jsstring \<Rightarrow> jsvalue \<Rightarrow> state \<Rightarrow> state" where
  "handleFieldChange fieldId val s =
     (let s1 = s\<lparr>formData := AList.update fieldId val (formData s)\<rparr>
      in if truthy_str (map_of (errors s) fieldId)
         then s1\<lparr>errors := AList.update fieldId [] (errors s)\<rparr>
         else s1)"

text \<open>A run of edits, oldest first.\<close>

definition edits :: "(jsstring \<times> jsvalue) list \<Rightarrow> state \<Rightarrow> state" where
  "edits cs s = fold (\<lambda>c. handleFieldChange (fst c) (snd c)) cs s"

text \<open>
  The \<^verbatim>\<open>onChange\<close> of one box of a checkbox group. \<^verbatim>\<open>formData[field.id] || []\<close> is
  \<open>or_array\<close>. Ticking spreads the current value in front of the option (a string spreads
  into its code points); unticking calls \<^verbatim>\<open>filter\<close>, which a string does not have.
\<close>

datatype error = TypeError

definition or_array :: "jsvalue option \<Rightarrow> jsvalue" where
  "or_array v = (case v of Some x \<Rightarrow> if truthy v then x else Arr [] | None \<Rightarrow> Arr [])"

fun code_points :: "jsstring \<Rightarrow> jsstring list" where
  "code_points [] = []"
| "code_points [c] = [[c]]"
| "code_points (c # d # r) =
     (if 0xD800 \<le> c \<and> c \<le> 0xDBFF \<and> 0xDC00 \<le> d \<and> d \<le> 0xDFFF
      then [c, d] # code_points r
      else [c] # code_points (d # r))"

fun spread :: "jsvalue \<Rightarrow> jsstring list" where
  "spread (Arr xs) = xs"
| "spread (Str s) = code_points s"

definition checkbox_onChange :: "FormField \<Rightarrow> jsstring \<Rightarrow> bool \<Rightarrow> state \<Rightarrow> error + state" where
  "checkbox_onChange field opt checked s =
     (let current = or_array (map_of (formData s) (ff_id field))
      in if checked
         then Inr (handleFieldChange (ff_id field) (Arr (spread current @ [opt])) s)
         else (case current of
                 Arr xs \<Rightarrow> Inr (handleFieldChange (ff_id field) (Arr (filter (\<lambda>v. v \<noteq> opt) xs)) s)
               | Str x \<Rightarrow> Inl TypeError))"

section \<open>Rendering and events\<close>

text \<open>
  What the component returns: the confirmation panel with the form's message and a Close
  button, nothing at all while no form definition is held, or the form with its X, Cancel
  and Submit buttons.
\<close>

datatype view = SuccessPanel jsstring | Blank | FormPanel

definition render :: "state \<Rightarrow> view" where
  "render s =
     (case (isSuccess s, form s) of
        (True, Some f) \<Rightarrow> SuccessPanel (success_message f)
      | (_, None) \<Rightarrow> Blank
      | (_, Some f) \<Rightarrow> FormPanel)"

text \<open>The paragraph under a field and its red border: \<^verbatim>\<open>errors[field.id] && ...\<close>.\<close>

definition error_rendered :: "state \<Rightarrow> jsstring \<Rightarrow> bool" where
  "error_rendered s fieldId = truthy_str (map_of (errors s) fieldId)"

datatype event =
    Loaded "RegistrationForm option" "FormField list option"
  | FieldChange jsstring jsvalue
  | Toggle FormField jsstring bool
  | Submit
  | InsertAnswered bool
  | Close

text \<open>
  An event of the user is possible when its control is on the page: the three buttons wired
  to \<^verbatim>\<open>onClose\<close> sit in the two panels, one control per field in the form, and the Submit
  button is disabled while \<^verbatim>\<open>isSubmitting\<close> holds. The answers of the store can arrive at
  any time.
\<close>

fun available :: "state \<Rightarrow> event \<Rightarrow> bool" where
  "available s Close = (render s \<noteq> Blank)"
| "available s Submit = (render s = FormPanel \<and> \<not> isSubmitting s)"
| "available s (FieldChange i v) = (render s = FormPanel \<and> i \<in> ff_id ` set (fields' s))"
| "available s (Toggle f opt c) =
     (render s = FormPanel \<and> f \<in> set (fields' s) \<and> field_type f = js ''checkbox''
      \<and> opt \<in> set (options f))"
| "available s (Loaded f fs) = True"
| "available s (InsertAnswered e) = True"

fun step :: "RegistrationFormModalProps \<Rightarrow> event \<Rightarrow> state \<Rightarrow> state \<times> effect list" where
  "step p (Loaded f fs) s = (loadForm f fs s, [])"
| "step p (FieldChange i v) s = (handleFieldChange i v s, [])"
| "step p (Toggle f opt c) s =
     (case checkbox_onChange f opt c s of Inr s' \<Rightarrow> (s', []) | Inl e \<Rightarrow> (s, []))"
| "step p Submit s = handleSubmit p s"
| "step p (InsertAnswered e) s = (handleSubmit_resume e s, [])"
| "step p Close s = (s, [OnClose])"

section \<open>The modal and its parent\<close>

text \<open>
  Modelled from the spec: the handler that the parent passes as \<^verbatim>\<open>onClose\<close> is not among
  the sources. The specification has the close action discard the draft; the parent does so
  by no longer rendering the modal, and the component's state, the draft in it, goes with
  it. A modal is the state of the mounted component, or nothing once it is removed.
\<close>

definition onClose :: "state option \<Rightarrow> state option" where
  "onClose m = None"

text \<open>
  One event on the modal. An event whose control is not on the page cannot happen and
  changes nothing. Otherwise the component's handler runs, and when it calls
  \<^verbatim>\<open>onClose\<close> the parent's handler runs after it. Once the modal is removed there is no
  control left, and an answer of the store that arrives late finds no component to update.
\<close>

fun modal_step :: "RegistrationFormModalProps \<Rightarrow> event \<Rightarrow> state option \<Rightarrow> state option \<times> effect list" where
  "modal_step p e None = (None, [])"
| "modal_step p e (Some s) =
     (if available s e
      then (case step p e s of
              (s', fx) \<Rightarrow> (if OnClose \<in> set fx then onClose (Some s') else Some s', fx))
      else (Some s, []))"

text \<open>A history of events, oldest first, with the effects in the order they were made.\<close>

fun run :: "RegistrationFormModalProps \<Rightarrow> event list \<Rightarrow> state option \<Rightarrow> state option \<times> effect list" where
  "run p [] m = (m, [])"
| "run p (e # es) m =
     (case modal_step p e m of
        (m', fx) \<Rightarrow> (case run p es m' of (m'', fx') \<Rightarrow> (m'', fx @ fx')))"

text \<open>The persistence calls among the effects.\<close>

fun inserts :: "effect list \<Rightarrow> submission list" where
  "inserts [] = []"
| "inserts (Insert sub # fx) = sub # inserts fx"
| "inserts (OnClose # fx) = inserts fx"

section \<open>Reference definitions\<close>

text \<open>
  The three validation rules for one field and its own draft value, in the order of the
  specification: the message the field receives, or none.
\<close>

definition field_error :: "FormField \<Rightarrow> jsvalue option \<Rightarrow> jsstring option" where
  "field_error field v =
     (if is_required field \<and> \<not> truthy v then Some (label field @ js '' is required'')
      else if field_type field = js ''email'' \<and> truthy v \<and> \<not> regex_test emailRegex v
      then Some (js ''Please enter a valid email address'')
      else if field_type field = js ''phone'' \<and> truthy v \<and> \<not> regex_test phoneRegex v
      then Some (js ''Please enter a valid phone number'')
      else None)"

text \<open>
  The shape \<^verbatim>\<open>local@domain.tld\<close>: three non-empty parts free of white space and of
  \<^verbatim>\<open>@\<close>, joined by one \<^verbatim>\<open>@\<close> and one dot.
\<close>

definition email_part :: "jsstring \<Rightarrow> bool" where
  "email_part u \<longleftrightarrow> u \<noteq> [] \<and> (\<forall>c\<in>set u. \<not> is_space c \<and> c \<noteq> 0x40)"

definition email_shaped :: "jsstring \<Rightarrow> bool" where
  "email_shaped s \<longleftrightarrow>
     (\<exists>user host tld. s = user @ [0x40] @ host @ [0x2E] @ tld
        \<and> email_part user \<and> email_part host \<and> email_part tld)"

text \<open>
  The characters a phone number may hold: \<open>phone_char\<close> is the class
  \<^verbatim>\<open>[0-9 \-+()]\<close> with the one space character, \<open>phone_char_ws\<close> the same class with
  every white space character in place of the space.
\<close>

definition phone_char :: "jschar \<Rightarrow> bool" where
  "phone_char c \<longleftrightarrow> is_digit c \<or> c \<in> set [0x20, 0x2D, 0x2B, 0x28, 0x29]"

definition phone_char_ws :: "jschar \<Rightarrow> bool" where
  "phone_char_ws c \<longleftrightarrow> is_digit c \<or> is_space c \<or> c \<in> set [0x2D, 0x2B, 0x28, 0x29]"

definition phone_shaped :: "jsstring \<Rightarrow> bool" where
  "phone_shaped s \<longleftrightarrow> s \<noteq> [] \<and> list_all phone_char_ws s"

section \<open>A sample form\<close>

text \<open>
  The form of the specification's scenarios (a required text field Name, an optional email
  field Email), with a phone field, a required checkbox group and a text field that reuses
  the label Topics. \<open>ready\<close> is the component once the definition has loaded.
\<close>

definition ex_form :: RegistrationForm where
  "ex_form = \<lparr>rf_id = js ''r1'', name = js ''Yoga camp'', description = [],
               success_message = js ''Thank you''\<rparr>"

definition ex_name :: FormField where
  "ex_name = \<lparr>ff_id = js ''f1'', label = js ''Name'', field_type = js ''text'',
               placeholder = [], options = [], is_required = True, sort_order = 1\<rparr>"

definition ex_email :: FormField where
  "ex_email = \<lparr>ff_id = js ''f2'', label = js ''Email'', field_type = js ''email'',
                placeholder = [], options = [], is_required = False, sort_order = 2\<rparr>"

definition ex_phone :: FormField where
  "ex_phone = \<lparr>ff_id = js ''f3'', label = js ''Phone'', field_type = js ''phone'',
                placeholder = [], options = [], is_required = False, sort_order = 3\<rparr>"

definition ex_topics :: FormField where
  "ex_topics = \<lparr>ff_id = js ''f4'', label = js ''Topics'', field_type = js ''checkbox'',
                 placeholder = [], options = [js ''Yoga'', js ''Meditation''],
                 is_required = True, sort_order = 4\<rparr>"

definition ex_topics_text :: FormField where
  "ex_topics_text = \<lparr>ff_id = js ''f5'', label = js ''Topics'', field_type = js ''text'',
                      placeholder = [], options = [], is_required = False, sort_order = 5\<rparr>"

definition ex_props :: RegistrationFormModalProps where
  "ex_props = \<lparr>formId = js ''r1'', programId = None, courseId = Some (js ''c7'')\<rparr>"

definition ready :: "FormField list \<Rightarrow> jsvalue jsrecord \<Rightarrow> state" where
  "ready fs fd = \<lparr>form = Some ex_form, fields' = fs, formData = fd, isSubmitting = False,
                   isSuccess = False, errors = []\<rparr>"

section \<open>Validation, field by field\<close>

lemma js_email_neq_phone: "js ''email'' \<noteq> js ''phone''"
  by (simp add: js_def)

lemma map_of_validateField:
  "map_of (validateField fd f e) =
     (case field_error f (map_of fd (ff_id f)) of
        None \<Rightarrow> map_of e
      | Some m \<Rightarrow> (map_of e)(ff_id f \<mapsto> m))"
  using js_email_neq_phone
  by (auto simp add: validateField_def field_error_def Let_def update_conv')

lemma keys_validateField:
  "fst ` set (validateField fd f e) \<subseteq> insert (ff_id f) (fst ` set e)"
  by (auto simp add: validateField_def Let_def dom_update)

lemma distinct_validateField:
  "distinct (map fst e) \<Longrightarrow> distinct (map fst (validateField fd f e))"
  by (simp add: validateField_def Let_def distinct_update)

lemma distinct_fold_validateField:
  "distinct (map fst e) \<Longrightarrow> distinct (map fst (fold (validateField fd) fs e))"
  by (induction fs arbitrary: e) (simp_all add: distinct_validateField)

lemma map_of_fold_validateField_other:
  "k \<notin> ff_id ` set fs \<Longrightarrow> map_of (fold (validateField fd) fs e) k = map_of e k"
  by (induction fs arbitrary: e) (auto simp add: map_of_validateField split: option.splits)

lemma map_of_fold_validateField_own:
  "distinct (map ff_id fs) \<Longrightarrow> f \<in> set fs \<Longrightarrow>
   map_of (fold (validateField fd) fs e) (ff_id f) =
     (case field_error f (map_of fd (ff_id f)) of
        None \<Rightarrow> map_of e (ff_id f)
      | Some m \<Rightarrow> Some m)"
proof (induction fs arbitrary: e)
  case Nil
  then show ?case by simp
next
  case (Cons g fs)
  show ?case
  proof (cases "f = g")
    case True
    with Cons.prems have "ff_id f \<notin> ff_id ` set fs" by auto
    then have "map_of (fold (validateField fd) fs (validateField fd g e)) (ff_id f)
        = map_of (validateField fd g e) (ff_id f)"
      by (rule map_of_fold_validateField_other)
    with True show ?thesis
      by (simp add: map_of_validateField split: option.splits)
  next
    case False
    with Cons.prems have in_fs: "f \<in> set fs" and d: "distinct (map ff_id fs)"
      and ne: "ff_id g \<noteq> ff_id f" by auto
    have "map_of (validateField fd g e) (ff_id f) = map_of e (ff_id f)"
      using ne by (simp add: map_of_validateField split: option.splits)
    with Cons.IH [OF d in_fs, of "validateField fd g e"] show ?thesis
      by (simp split: option.splits)
  qed
qed

lemma map_of_newErrors_own:
  "distinct (map ff_id fs) \<Longrightarrow> f \<in> set fs \<Longrightarrow>
   map_of (newErrors fs fd) (ff_id f) = field_error f (map_of fd (ff_id f))"
  by (simp add: newErrors_def map_of_fold_validateField_own split: option.splits)

lemma map_of_newErrors_other:
  "k \<notin> ff_id ` set fs \<Longrightarrow> map_of (newErrors fs fd) k = None"
  by (simp add: newErrors_def map_of_fold_validateField_other)

lemma distinct_newErrors: "distinct (map fst (newErrors fs fd))"
  by (simp add: newErrors_def distinct_fold_validateField)

lemma filter_key_distinct:
  "distinct (map fst al) \<Longrightarrow> map_of al k = Some v \<Longrightarrow> filter (\<lambda>e. fst e = k) al = [(k, v)]"
proof (induction al)
  case Nil
  then show ?case by simp
next
  case (Cons a al)
  show ?case
  proof (cases "fst a = k")
    case True
    with Cons.prems have "k \<notin> fst ` set al" and "a = (k, v)" by (auto simp: prod_eq_iff)
    then have "filter (\<lambda>e. fst e = k) al = []" and "a = (k, v)"
      by (auto simp add: filter_empty_conv)
    with True show ?thesis by simp
  next
    case False
    with Cons show ?thesis by auto
  qed
qed

lemma newErrors_permute:
  assumes "distinct (map ff_id fs)" "mset fs = mset fs'"
  shows "map_of (newErrors fs fd) = map_of (newErrors fs' fd)"
proof
  fix k
  from assms(2) have s: "set fs = set fs'" by (rule mset_eq_setD)
  from assms have d': "distinct (map ff_id fs')"
    by (metis distinct_map mset_eq_imp_distinct_iff s)
  show "map_of (newErrors fs fd) k = map_of (newErrors fs' fd) k"
  proof (cases "k \<in> ff_id ` set fs")
    case True
    then obtain f where "f \<in> set fs" "k = ff_id f" by auto
    with assms(1) d' s show ?thesis by (simp add: map_of_newErrors_own)
  next
    case False
    with s show ?thesis by (simp add: map_of_newErrors_other)
  qed
qed

lemma validateField_passes:
  "field_error f (map_of fd (ff_id f)) = None \<Longrightarrow> validateField fd f e = e"
  using js_email_neq_phone
  by (auto simp add: validateField_def field_error_def Let_def split: if_splits)

lemma validateField_nonempty:
  "field_error f (map_of fd (ff_id f)) \<noteq> None \<or> e \<noteq> [] \<Longrightarrow> validateField fd f e \<noteq> []"
  using js_email_neq_phone
  by (auto simp add: validateField_def field_error_def Let_def split: if_splits)

lemma fold_validateField_Nil_iff:
  "fold (validateField fd) fs e = [] \<longleftrightarrow>
     e = [] \<and> (\<forall>f\<in>set fs. field_error f (map_of fd (ff_id f)) = None)"
proof (induction fs arbitrary: e)
  case Nil
  then show ?case by simp
next
  case (Cons g fs)
  show ?case
  proof (cases "field_error g (map_of fd (ff_id g)) = None")
    case True
    then show ?thesis by (simp add: Cons.IH validateField_passes)
  next
    case False
    then have "validateField fd g e \<noteq> []" by (simp add: validateField_nonempty)
    with False show ?thesis by (simp add: Cons.IH)
  qed
qed

lemma newErrors_Nil_iff:
  "newErrors fs fd = [] \<longleftrightarrow> (\<forall>f\<in>set fs. field_error f (map_of fd (ff_id f)) = None)"
  by (simp add: newErrors_def fold_validateField_Nil_iff)

section \<open>What the two patterns accept\<close>

lemma matches_Once:
  "matches (Once a # r) s \<longleftrightarrow> (\<exists>c t. s = c # t \<and> atom_ok a c \<and> matches r t)"
  by (cases s) auto

lemma matches_Plus:
  "matches (Plus a # r) s \<longleftrightarrow>
     (\<exists>u t. s = u @ t \<and> u \<noteq> [] \<and> list_all (atom_ok a) u \<and> matches r t)"
proof (induction s)
  case Nil
  then show ?case by simp
next
  case (Cons c s)
  show ?case
  proof
    assume "matches (Plus a # r) (c # s)"
    then have c: "atom_ok a c" and d: "matches (Plus a # r) s \<or> matches r s" by auto
    from d show "\<exists>u t. c # s = u @ t \<and> u \<noteq> [] \<and> list_all (atom_ok a) u \<and> matches r t"
    proof
      assume "matches (Plus a # r) s"
      with Cons.IH obtain u t where "s = u @ t" "u \<noteq> []" "list_all (atom_ok a) u" "matches r t"
        by blast
      with c have "c # s = (c # u) @ t \<and> c # u \<noteq> [] \<and> list_all (atom_ok a) (c # u) \<and> matches r t"
        by simp
      then show ?thesis by blast
    next
      assume "matches r s"
      with c have "c # s = [c] @ s \<and> [c] \<noteq> [] \<and> list_all (atom_ok a) [c] \<and> matches r s"
        by simp
      then show ?thesis by blast
    qed
  next
    assume "\<exists>u t. c # s = u @ t \<and> u \<noteq> [] \<and> list_all (atom_ok a) u \<and> matches r t"
    then obtain u t where e: "c # s = u @ t" and ne: "u \<noteq> []"
      and ok: "list_all (atom_ok a) u" and m: "matches r t" by blast
    from ne obtain x u' where u: "u = x # u'" by (cases u) auto
    with e have x: "x = c" and s: "s = u' @ t" by auto
    show "matches (Plus a # r) (c # s)"
    proof (cases "u' = []")
      case True
      with s m ok u x show ?thesis by simp
    next
      case False
      with s m ok u have "matches (Plus a # r) s" using Cons.IH by auto
      with ok u x show ?thesis by simp
    qed
  qed
qed

lemma email_atom: "atom_ok (NoneOf [ClassS, Lit 0x40]) c \<longleftrightarrow> \<not> is_space c \<and> c \<noteq> 0x40"
  by simp

lemma email_part_iff: "email_part u \<longleftrightarrow> u \<noteq> [] \<and> list_all (atom_ok (NoneOf [ClassS, Lit 0x40])) u"
  by (simp add: email_part_def list_all_iff)

lemma matches_emailRegex: "matches emailRegex s \<longleftrightarrow> email_shaped s"
proof
  assume "matches emailRegex s"
  then obtain u1 t1 where 1: "s = u1 @ t1" "email_part u1"
      and m1: "matches [Once (Chr 0x40), Plus (NoneOf [ClassS, Lit 0x40]), Once (Chr 0x2E),
                 Plus (NoneOf [ClassS, Lit 0x40])] t1"
    unfolding emailRegex_def matches_Plus [of _ "Once (Chr 0x40) # _"] email_part_iff by blast
  from m1 obtain t2 where 2: "t1 = 0x40 # t2"
      and m2: "matches [Plus (NoneOf [ClassS, Lit 0x40]), Once (Chr 0x2E),
                 Plus (NoneOf [ClassS, Lit 0x40])] t2"
    unfolding matches_Once by auto
  from m2 obtain u2 t3 where 3: "t2 = u2 @ t3" "email_part u2"
      and m3: "matches [Once (Chr 0x2E), Plus (NoneOf [ClassS, Lit 0x40])] t3"
    unfolding matches_Plus [of _ "Once (Chr 0x2E) # _"] email_part_iff by blast
  from m3 obtain t4 where 4: "t3 = 0x2E # t4"
      and m4: "matches [Plus (NoneOf [ClassS, Lit 0x40])] t4"
    unfolding matches_Once by auto
  from m4 have 5: "email_part t4"
    unfolding matches_Plus [of _ "[]"] email_part_iff by auto
  from 1 2 3 4 5 have "s = u1 @ [0x40] @ u2 @ [0x2E] @ t4 \<and> email_part u1 \<and> email_part u2 \<and> email_part t4"
    by simp
  then show "email_shaped s" unfolding email_shaped_def by blast
next
  assume "email_shaped s"
  then obtain user host tld where s: "s = user @ [0x40] @ host @ [0x2E] @ tld"
    and p: "email_part user" "email_part host" "email_part tld"
    unfolding email_shaped_def by blast
  from p(3) have m4: "matches [Plus (NoneOf [ClassS, Lit 0x40])] tld"
    unfolding matches_Plus [of _ "[]"] email_part_iff by auto
  then have m3: "matches [Once (Chr 0x2E), Plus (NoneOf [ClassS, Lit 0x40])] (0x2E # tld)"
    by simp
  with p(2) have m2: "matches [Plus (NoneOf [ClassS, Lit 0x40]), Once (Chr 0x2E),
                 Plus (NoneOf [ClassS, Lit 0x40])] (host @ 0x2E # tld)"
    unfolding matches_Plus [of _ "Once (Chr 0x2E) # _"] email_part_iff by blast
  then have m1: "matches [Once (Chr 0x40), Plus (NoneOf [ClassS, Lit 0x40]), Once (Chr 0x2E),
                 Plus (NoneOf [ClassS, Lit 0x40])] (0x40 # host @ 0x2E # tld)"
    by simp
  with p(1) have "matches emailRegex (user @ 0x40 # host @ 0x2E # tld)"
    unfolding emailRegex_def matches_Plus [of _ "Once (Chr 0x40) # _"] email_part_iff by blast
  with s show "matches emailRegex s" by simp
qed

lemma phone_atom:
  "atom_ok (OneOf [ClassD, ClassS, Lit 0x2D, Lit 0x2B, Lit 0x28, Lit 0x29]) = phone_char_ws"
  by (auto simp add: fun_eq_iff phone_char_ws_def)

lemma matches_phoneRegex: "matches phoneRegex s \<longleftrightarrow> phone_shaped s"
  unfolding phoneRegex_def matches_Plus [of _ "[]"] phone_atom phone_shaped_def by auto

lemma field_error_required:
  "is_required f \<Longrightarrow> \<not> truthy v \<Longrightarrow> field_error f v = Some (label f @ js '' is required'')"
  by (simp add: field_error_def)

lemma field_error_email:
  "field_type f = js ''email'' \<Longrightarrow> truthy v \<Longrightarrow>
   field_error f v = (if email_shaped (ToString v) then None
                      else Some (js ''Please enter a valid email address''))"
  using js_email_neq_phone
  by (simp add: field_error_def regex_test_def matches_emailRegex)

lemma field_error_phone:
  "field_type f = js ''phone'' \<Longrightarrow> truthy v \<Longrightarrow>
   field_error f v = (if phone_shaped (ToString v) then None
                      else Some (js ''Please enter a valid phone number''))"
  using js_email_neq_phone
  by (simp add: field_error_def regex_test_def matches_phoneRegex)

lemma errors_handleSubmit:
  "errors (fst (handleSubmit p s)) = newErrors (fields' s) (formData s)"
  by (simp add: handleSubmit_def validateForm_def Let_def)

lemma handleSubmit_blocked:
  "newErrors (fields' s) (formData s) \<noteq> [] \<Longrightarrow> snd (handleSubmit p s) = []"
  by (simp add: handleSubmit_def validateForm_def Let_def)

lemma map_of_Some_nonempty: "map_of al k = Some v \<Longrightarrow> al \<noteq> []"
  by auto

section \<open>The response record\<close>

lemma keys_fold_responses:
  "fst ` set (fold (\<lambda>field resp. AList.update (label field) (or_empty (map_of fd (ff_id field))) resp) fs r)
     = fst ` set r \<union> label ` set fs"
  by (induction fs arbitrary: r) (auto simp add: dom_update)

lemma distinct_fold_responses:
  "distinct (map fst r) \<Longrightarrow>
   distinct (map fst (fold (\<lambda>field resp. AList.update (label field) (or_empty (map_of fd (ff_id field))) resp) fs r))"
  by (induction fs arbitrary: r) (simp_all add: distinct_update)

lemma map_of_fold_responses_other:
  "k \<notin> label ` set fs \<Longrightarrow>
   map_of (fold (\<lambda>field resp. AList.update (label field) (or_empty (map_of fd (ff_id field))) resp) fs r) k
     = map_of r k"
  by (induction fs arbitrary: r) (auto simp add: update_conv')

lemma keys_build_responses: "fst ` set (build_responses fs fd) = label ` set fs"
  by (simp add: build_responses_def keys_fold_responses)

lemma distinct_build_responses: "distinct (map fst (build_responses fs fd))"
  by (simp add: build_responses_def distinct_fold_responses)

lemma map_of_build_responses_last:
  assumes "fs = pre @ f # post" and "label f \<notin> label ` set post"
  shows "map_of (build_responses fs fd) (label f) = Some (or_empty (map_of fd (ff_id f)))"
  using assms by (simp add: build_responses_def map_of_fold_responses_other update_conv')

lemma handleSubmit_Insert:
  "snd (handleSubmit p s) = [Insert sub] \<Longrightarrow>
   responses sub = build_responses (fields' s) (formData s) \<and> newErrors (fields' s) (formData s) = []"
  by (auto simp add: handleSubmit_def validateForm_def Let_def split: if_splits)

lemma or_empty_falsy: "\<not> truthy v \<Longrightarrow> or_empty v = Str []"
  by (cases v) (simp_all add: or_empty_def)

section \<open>Checkbox groups and edits\<close>

lemma validateField_checkbox_empty:
  assumes "field_type f = js ''checkbox''" and "map_of fd (ff_id f) = Some (Arr [])"
  shows "validateField fd f e = e"
  using assms by (simp add: validateField_def Let_def js_def)

lemma field_error_checkbox_empty:
  assumes "field_type f = js ''checkbox''"
  shows "field_error f (Some (Arr [])) = None"
  using assms by (simp add: field_error_def js_def)

lemma handleFieldChange_frame:
  "form (handleFieldChange i v s) = form s \<and> fields' (handleFieldChange i v s) = fields' s
   \<and> isSubmitting (handleFieldChange i v s) = isSubmitting s
   \<and> isSuccess (handleFieldChange i v s) = isSuccess s"
  by (simp add: handleFieldChange_def Let_def)

lemma handleFieldChange_no_errors:
  "errors s = [] \<Longrightarrow> errors (handleFieldChange i v s) = []"
  by (simp add: handleFieldChange_def Let_def)

lemma edits_frame:
  "form (edits cs s) = form s \<and> fields' (edits cs s) = fields' s
   \<and> isSubmitting (edits cs s) = isSubmitting s \<and> isSuccess (edits cs s) = isSuccess s"
  unfolding edits_def by (induction cs arbitrary: s) (simp_all add: handleFieldChange_frame)

lemma edits_no_errors: "errors s = [] \<Longrightarrow> errors (edits cs s) = []"
  unfolding edits_def by (induction cs arbitrary: s) (simp_all add: handleFieldChange_no_errors)

lemma handleSubmit_issued:
  assumes "handleSubmit p s = (s1, [Insert sub])"
  shows "s1 = s\<lparr>errors := [], isSubmitting := True\<rparr>"
  using assms by (auto simp add: handleSubmit_def validateForm_def Let_def split: if_splits)

section \<open>Closing\<close>

lemma inserts_append: "inserts (fx @ fx') = inserts fx @ inserts fx'"
  by (induction fx rule: inserts.induct) simp_all

lemma step_OnClose_iff: "OnClose \<in> set (snd (step p e s)) \<longleftrightarrow> e = Close"
  by (cases e) (auto simp add: handleSubmit_def validateForm_def Let_def split: sum.splits)

lemma step_inserts_only_Submit: "inserts (snd (step p e s)) \<noteq> [] \<Longrightarrow> e = Submit"
  by (cases e) (auto split: sum.splits)

lemma available_Close_iff: "available s Close \<longleftrightarrow> form s \<noteq> None"
  by (simp add: render_def split: option.splits bool.splits)

lemma modal_step_Close:
  "modal_step p Close m =
     (case m of None \<Rightarrow> (None, [])
      | Some s \<Rightarrow> if form s \<noteq> None then (None, [OnClose]) else (Some s, []))"
  by (cases m) (simp_all add: onClose_def render_def split: option.splits bool.splits)

lemma inserts_modal_step_Close: "inserts (snd (modal_step p Close m)) = []"
  by (simp add: modal_step_Close split: option.splits)

lemma modal_step_keeps_unless_Close:
  "e \<noteq> Close \<Longrightarrow> fst (modal_step p e (Some s)) \<noteq> None"
  using step_OnClose_iff [of p e s]
  by (auto split: prod.splits)

lemma run_None: "run p es None = (None, [])"
  by (induction es) simp_all

lemma run_append:
  "run p (es @ es') m =
     (case run p es m of
        (m', fx) \<Rightarrow> (case run p es' m' of (m'', fx') \<Rightarrow> (m'', fx @ fx')))"
  by (induction es arbitrary: m) (simp_all split: prod.splits)

section \<open>Required fields without a value\<close>

text \<open>
  Field identities are unique within a form. A required field whose draft is absent or the
  empty string gets exactly one error entry, \<^verbatim>\<open><label> is required\<close>, and the submit
  makes no call.
\<close>

lemma required_without_value_blocks_submit:
  assumes "distinct (map ff_id (fields' s))" and "f \<in> set (fields' s)" and "is_required f"
    and "map_of (formData s) (ff_id f) = None \<or> map_of (formData s) (ff_id f) = Some (Str [])"
  shows "filter (\<lambda>e. fst e = ff_id f) (errors (fst (handleSubmit p s)))
           = [(ff_id f, label f @ js '' is required'')]
    \<and> map_of (errors (fst (handleSubmit p s))) (ff_id f) = Some (label f @ js '' is required'')
    \<and> snd (handleSubmit p s) = []"
proof -
  let ?errs = "newErrors (fields' s) (formData s)"
  from assms(4) have "\<not> truthy (map_of (formData s) (ff_id f))" by auto
  with assms(3) have "field_error f (map_of (formData s) (ff_id f)) = Some (label f @ js '' is required'')"
    by (rule field_error_required)
  with assms(1,2) have m: "map_of ?errs (ff_id f) = Some (label f @ js '' is required'')"
    by (simp add: map_of_newErrors_own)
  then have "?errs \<noteq> []" by (rule map_of_Some_nonempty)
  then have "snd (handleSubmit p s) = []" by (rule handleSubmit_blocked)
  moreover from distinct_newErrors m
  have "filter (\<lambda>e. fst e = ff_id f) ?errs = [(ff_id f, label f @ js '' is required'')]"
    by (rule filter_key_distinct)
  ultimately show ?thesis using m by (simp add: errors_handleSubmit)
qed

section \<open>Claims\<close>

text \<open>
  C1. A required field with an empty draft must be rejected with \<^verbatim>\<open><label> is required\<close>
  and block the submit. For a required checkbox group the code does not: ticking an option
  and unticking it again leaves the empty list as the draft, the negation of an array is
  false, so no error is recorded and the insert is issued with the empty list. The same
  group, never touched, is rejected.
\<close>

theorem required_checkbox_emptied_is_submitted:
  "checkbox_onChange ex_topics (js ''Yoga'') True (ready [ex_topics] [])
     = Inr (ready [ex_topics] [(js ''f4'', Arr [js ''Yoga''])])
   \<and> checkbox_onChange ex_topics (js ''Yoga'') False
         (ready [ex_topics] [(js ''f4'', Arr [js ''Yoga''])])
     = Inr (ready [ex_topics] [(js ''f4'', Arr [])])
   \<and> is_required ex_topics
   \<and> newErrors [ex_topics] [(js ''f4'', Arr [])] = []
   \<and> snd (handleSubmit ex_props (ready [ex_topics] [(js ''f4'', Arr [])]))
     = [Insert \<lparr>form_id = js ''r1'', program_id = None, course_id = Some (js ''c7''),
                responses = [(js ''Topics'', Arr [])]\<rparr>]
   \<and> errors (fst (handleSubmit ex_props (ready [ex_topics] [])))
     = [(js ''f4'', js ''Topics is required'')]
   \<and> snd (handleSubmit ex_props (ready [ex_topics] [])) = []"
  by code_simp

text \<open>
  C2. Validation is all or nothing: the submit handler issues the insert exactly when the
  error record recomputed over all fields is empty, which is the case exactly when every
  field passes its rules; in every case the recomputed errors become the component's error
  state, and when they are not empty no call is made.
\<close>

theorem validation_all_or_nothing:
  "((\<exists>sub. snd (handleSubmit p s) = [Insert sub]) \<longleftrightarrow> newErrors (fields' s) (formData s) = [])
   \<and> (newErrors (fields' s) (formData s) = []
        \<longleftrightarrow> (\<forall>f\<in>set (fields' s). field_error f (map_of (formData s) (ff_id f)) = None))
   \<and> errors (fst (handleSubmit p s)) = newErrors (fields' s) (formData s)
   \<and> (newErrors (fields' s) (formData s) \<noteq> [] \<longrightarrow> snd (handleSubmit p s) = [])"
proof -
  have "(\<exists>sub. snd (handleSubmit p s) = [Insert sub]) \<longleftrightarrow> newErrors (fields' s) (formData s) = []"
    by (simp add: handleSubmit_def validateForm_def Let_def)
  moreover have "errors (fst (handleSubmit p s)) = newErrors (fields' s) (formData s)"
    by (rule errors_handleSubmit)
  moreover have "newErrors (fields' s) (formData s) \<noteq> [] \<longrightarrow> snd (handleSubmit p s) = []"
    by (simp add: handleSubmit_blocked)
  ultimately show ?thesis using newErrors_Nil_iff [of "fields' s" "formData s"] by blast
qed

theorem validation_all_or_nothing_witness:
  "newErrors [ex_name, ex_email] [] \<noteq> []
   \<and> snd (handleSubmit ex_props (ready [ex_name, ex_email] [])) = []
   \<and> errors (fst (handleSubmit ex_props (ready [ex_name, ex_email] [])))
       = newErrors [ex_name, ex_email] []"
proof -
  let ?s = "ready [ex_name, ex_email] []"
  have f: "fields' ?s = [ex_name, ex_email]" and d: "formData ?s = []"
    by (simp_all add: ready_def)
  have ne: "newErrors [ex_name, ex_email] [] \<noteq> []"
    by code_simp
  from validation_all_or_nothing [of ex_props ?s] ne show ?thesis
    unfolding f d by blast
qed

text \<open>
  C3, as amended. The record handed to the insert is keyed by label: its keys are exactly the
  labels of the fields, each once, and a field whose label no later field carries maps to
  the empty string when its draft is absent, and to its draft when that is a string (the
  empty one included) or a non-empty list.
\<close>

theorem responses_keyed_by_label:
  assumes "snd (handleSubmit p s) = [Insert sub]"
  shows "fst ` set (responses sub) = label ` set (fields' s)
    \<and> distinct (map fst (responses sub))
    \<and> (\<forall>pre f post. fields' s = pre @ f # post \<and> label f \<notin> label ` set post \<longrightarrow>
          (case map_of (formData s) (ff_id f) of
             None \<Rightarrow> map_of (responses sub) (label f) = Some (Str [])
           | Some (Str x) \<Rightarrow> map_of (responses sub) (label f) = Some (Str x)
           | Some (Arr xs) \<Rightarrow> xs \<noteq> [] \<longrightarrow> map_of (responses sub) (label f) = Some (Arr xs)))"
proof -
  from assms have r: "responses sub = build_responses (fields' s) (formData s)"
    by (simp add: handleSubmit_Insert)
  have v: "map_of (build_responses (fields' s) (formData s)) (label f)
            = Some (or_empty (map_of (formData s) (ff_id f)))"
    if "fields' s = pre @ f # post" "label f \<notin> label ` set post" for pre f post
    using that by (rule map_of_build_responses_last)
  have "case map_of (formData s) (ff_id f) of
             None \<Rightarrow> map_of (responses sub) (label f) = Some (Str [])
           | Some (Str x) \<Rightarrow> map_of (responses sub) (label f) = Some (Str x)
           | Some (Arr xs) \<Rightarrow> xs \<noteq> [] \<longrightarrow> map_of (responses sub) (label f) = Some (Arr xs)"
    if "fields' s = pre @ f # post" "label f \<notin> label ` set post" for pre f post
    unfolding r v [OF that]
    by (simp add: or_empty_def split: option.splits jsvalue.splits)
  then show ?thesis unfolding r
    by (simp add: keys_build_responses distinct_build_responses del: map_of_eq_Some_iff)
qed

theorem responses_keyed_by_label_witness:
  "snd (handleSubmit ex_props (ready [ex_name, ex_email] [(js ''f1'', Str (js ''Ada''))]))
     = [Insert \<lparr>form_id = js ''r1'', program_id = None, course_id = Some (js ''c7''),
                responses = [(js ''Name'', Str (js ''Ada'')), (js ''Email'', Str [])]\<rparr>]
   \<and> map_of [(js ''f1'', Str (js ''Ada''))] (ff_id ex_email) = None
   \<and> map_of [(js ''Name'', Str (js ''Ada'')), (js ''Email'', Str [])] (label ex_email)
       = Some (Str [])
   \<and> fst ` set [(js ''Name'', Str (js ''Ada'')), (js ''Email'', Str [])]
       = label ` set [ex_name, ex_email]"
proof -
  let ?s = "ready [ex_name, ex_email] [(js ''f1'', Str (js ''Ada''))]"
  let ?sub = "\<lparr>form_id = js ''r1'', program_id = None, course_id = Some (js ''c7''),
               responses = [(js ''Name'', Str (js ''Ada'')), (js ''Email'', Str [])]\<rparr>"
  have f: "fields' ?s = [ex_name, ex_email]"
    and d: "formData ?s = [(js ''f1'', Str (js ''Ada''))]"
    by (simp_all add: ready_def)
  have h: "snd (handleSubmit ex_props ?s) = [Insert ?sub]" by code_simp
  have v: "map_of [(js ''f1'', Str (js ''Ada''))] (ff_id ex_email) = None" by code_simp
  note t = responses_keyed_by_label [OF h, unfolded f d]
  from t have k: "fst ` set (responses ?sub) = label ` set [ex_name, ex_email]" by (rule conjunct1)
  note i = t [THEN conjunct2, THEN conjunct2, THEN spec, THEN spec, THEN spec,
      of "[ex_name]" ex_email "[]", unfolded v option.case]
  have a: "[ex_name, ex_email] = [ex_name] @ ex_email # []" by simp
  have b: "label ex_email \<notin> label ` set []" by simp
  from i a b have m: "map_of (responses ?sub) (label ex_email) = Some (Str [])" by blast
  from h v m k show ?thesis by simp
qed

text \<open>
  C3 as stated fails where two fields share a label: the later field overwrites the entry,
  so the first field, which has no entered value, does not map to the empty string.
\<close>

theorem responses_shared_label_counterexample:
  "snd (handleSubmit ex_props
          (ready [ex_topics_text, ex_topics] [(js ''f4'', Arr [js ''Yoga''])]))
     = [Insert \<lparr>form_id = js ''r1'', program_id = None, course_id = Some (js ''c7''),
                responses = [(js ''Topics'', Arr [js ''Yoga''])]\<rparr>]
   \<and> ex_topics_text \<in> set [ex_topics_text, ex_topics]
   \<and> map_of [(js ''f4'', Arr [js ''Yoga''])] (ff_id ex_topics_text) = None
   \<and> map_of [(js ''Topics'', Arr [js ''Yoga''])] (label ex_topics_text) \<noteq> Some (Str [])"
  by code_simp

text \<open>
  C4. With unique field identities, an email field whose draft is present is left without
  an error exactly when the value has the shape \<^verbatim>\<open>local@domain.tld\<close>; otherwise its error
  is \<^verbatim>\<open>Please enter a valid email address\<close>.
\<close>

theorem email_field_validation:
  assumes "distinct (map ff_id fs)" and "f \<in> set fs" and "field_type f = js ''email''"
    and "truthy (map_of fd (ff_id f))"
  shows "(map_of (newErrors fs fd) (ff_id f) = None
            \<longleftrightarrow> email_shaped (ToString (map_of fd (ff_id f))))
    \<and> (\<not> email_shaped (ToString (map_of fd (ff_id f)))
         \<longrightarrow> map_of (newErrors fs fd) (ff_id f) = Some (js ''Please enter a valid email address''))"
  using assms by (simp add: map_of_newErrors_own field_error_email)

theorem email_field_validation_witness:
  "distinct (map ff_id [ex_name, ex_email]) \<and> ex_email \<in> set [ex_name, ex_email]
   \<and> field_type ex_email = js ''email''
   \<and> truthy (map_of [(js ''f1'', Str (js ''Ada'')), (js ''f2'', Str (js ''ada@example.com''))]
        (ff_id ex_email))
   \<and> map_of (newErrors [ex_name, ex_email]
        [(js ''f1'', Str (js ''Ada'')), (js ''f2'', Str (js ''ada@example.com''))]) (ff_id ex_email)
       = None
   \<and> email_shaped (js ''ada@example.com'')"
proof -
  let ?fd = "[(js ''f1'', Str (js ''Ada'')), (js ''f2'', Str (js ''ada@example.com''))]"
  have h1: "distinct (map ff_id [ex_name, ex_email])" by code_simp
  have h2: "ex_email \<in> set [ex_name, ex_email]" by simp
  have h3: "field_type ex_email = js ''email''" by (simp add: ex_email_def)
  have h4: "truthy (map_of ?fd (ff_id ex_email))" by code_simp
  have n: "map_of (newErrors [ex_name, ex_email] ?fd) (ff_id ex_email) = None" by code_simp
  have v: "ToString (map_of ?fd (ff_id ex_email)) = js ''ada@example.com''" by code_simp
  from email_field_validation [OF h1 h2 h3 h4] n
  have "email_shaped (ToString (map_of ?fd (ff_id ex_email)))" by blast
  with v have "email_shaped (js ''ada@example.com'')" by simp
  with h1 h2 h3 h4 n show ?thesis by blast
qed

text \<open>
  C5, as amended. With unique field identities, a phone field whose draft is present is
  left without an error exactly when the value is a non-empty run of digits, white space
  characters (all of \<^verbatim>\<open>\s\<close>, not only the space), \<^verbatim>\<open>-\<close>, \<^verbatim>\<open>+\<close>, \<^verbatim>\<open>(\<close> and
  \<^verbatim>\<open>)\<close>; otherwise its error is \<^verbatim>\<open>Please enter a valid phone number\<close>.
\<close>

theorem phone_field_validation:
  assumes "distinct (map ff_id fs)" and "f \<in> set fs" and "field_type f = js ''phone''"
    and "truthy (map_of fd (ff_id f))"
  shows "(map_of (newErrors fs fd) (ff_id f) = None
            \<longleftrightarrow> phone_shaped (ToString (map_of fd (ff_id f))))
    \<and> (\<not> phone_shaped (ToString (map_of fd (ff_id f)))
         \<longrightarrow> map_of (newErrors fs fd) (ff_id f) = Some (js ''Please enter a valid phone number''))"
  using assms by (simp add: map_of_newErrors_own field_error_phone)

theorem phone_field_validation_witness:
  "distinct (map ff_id [ex_name, ex_phone]) \<and> ex_phone \<in> set [ex_name, ex_phone]
   \<and> field_type ex_phone = js ''phone''
   \<and> truthy (map_of [(js ''f1'', Str (js ''Ada'')), (js ''f3'', Str (js ''+91 (80) 1234-5678''))]
        (ff_id ex_phone))
   \<and> map_of (newErrors [ex_name, ex_phone]
        [(js ''f1'', Str (js ''Ada'')), (js ''f3'', Str (js ''+91 (80) 1234-5678''))]) (ff_id ex_phone)
       = None
   \<and> phone_shaped (js ''+91 (80) 1234-5678'')"
proof -
  let ?fd = "[(js ''f1'', Str (js ''Ada'')), (js ''f3'', Str (js ''+91 (80) 1234-5678''))]"
  have h1: "distinct (map ff_id [ex_name, ex_phone])" by code_simp
  have h2: "ex_phone \<in> set [ex_name, ex_phone]" by simp
  have h3: "field_type ex_phone = js ''phone''" by (simp add: ex_phone_def)
  have h4: "truthy (map_of ?fd (ff_id ex_phone))" by code_simp
  have n: "map_of (newErrors [ex_name, ex_phone] ?fd) (ff_id ex_phone) = None" by code_simp
  have v: "ToString (map_of ?fd (ff_id ex_phone)) = js ''+91 (80) 1234-5678''" by code_simp
  from phone_field_validation [OF h1 h2 h3 h4] n
  have "phone_shaped (ToString (map_of ?fd (ff_id ex_phone)))" by blast
  with v have "phone_shaped (js ''+91 (80) 1234-5678'')" by simp
  with h1 h2 h3 h4 n show ?thesis by blast
qed

text \<open>
  C5 as stated fails at a tab: the value \<^verbatim>\<open>1<TAB>2\<close> holds a character outside
  \<^verbatim>\<open>[0-9 \-+()]\<close> and is accepted.
\<close>

theorem phone_field_counterexample:
  "\<not> list_all phone_char [0x31, 0x09, 0x32]
   \<and> field_type ex_phone = js ''phone''
   \<and> truthy (map_of [(js ''f3'', Str [0x31, 0x09, 0x32])] (ff_id ex_phone))
   \<and> map_of (newErrors [ex_phone] [(js ''f3'', Str [0x31, 0x09, 0x32])]) (ff_id ex_phone) = None"
  by code_simp

text \<open>
  C6. When a field whose error is shown changes, that field's error is no longer shown, and
  the entry and the display of every other field's error stay as they were.
\<close>

theorem field_change_clears_own_error:
  assumes "error_rendered s f"
  shows "\<not> error_rendered (handleFieldChange f v s) f
    \<and> (\<forall>g. g \<noteq> f \<longrightarrow> map_of (errors (handleFieldChange f v s)) g = map_of (errors s) g)
    \<and> (\<forall>g. g \<noteq> f \<longrightarrow> error_rendered (handleFieldChange f v s) g = error_rendered s g)"
  using assms by (simp add: error_rendered_def handleFieldChange_def Let_def update_conv')

theorem field_change_clears_own_error_witness:
  "error_rendered (fst (handleSubmit ex_props (ready [ex_name, ex_email] [(js ''f2'', Str (js ''x''))])))
     (js ''f1'')
   \<and> \<not> error_rendered (handleFieldChange (js ''f1'') (Str (js ''Ada''))
        (fst (handleSubmit ex_props (ready [ex_name, ex_email] [(js ''f2'', Str (js ''x''))]))))
     (js ''f1'')
   \<and> error_rendered (handleFieldChange (js ''f1'') (Str (js ''Ada''))
        (fst (handleSubmit ex_props (ready [ex_name, ex_email] [(js ''f2'', Str (js ''x''))]))))
     (js ''f2'')"
proof -
  let ?s = "fst (handleSubmit ex_props (ready [ex_name, ex_email] [(js ''f2'', Str (js ''x''))]))"
  have h: "error_rendered ?s (js ''f1'')" by code_simp
  have g: "error_rendered ?s (js ''f2'')" by code_simp
  have ne: "js ''f2'' \<noteq> js ''f1''" by code_simp
  from field_change_clears_own_error [OF h, of "Str (js ''Ada'')"] g ne h
  show ?thesis by blast
qed

text \<open>
  C7. When the insert issued from the form answers with an error, whatever was edited in
  the meantime, the component still shows the form: no success state, the busy flag
  cleared, no errors, the Submit button usable; an untouched draft is sent again as it was.
\<close>

theorem failed_insert_keeps_form_ready:
  assumes "render s = FormPanel" and "handleSubmit p s = (s1, [Insert sub])"
    and "s2 = handleSubmit_resume True (edits cs s1)"
  shows "render s2 = FormPanel \<and> \<not> isSuccess s2 \<and> \<not> isSubmitting s2 \<and> errors s2 = []
    \<and> available s2 Submit
    \<and> (cs = [] \<longrightarrow> formData s2 = formData s \<and> snd (handleSubmit p s2) = [Insert sub])"
proof -
  from assms(2) have s1: "s1 = s\<lparr>errors := [], isSubmitting := True\<rparr>"
    by (rule handleSubmit_issued)
  from assms(1) obtain f where f: "form s = Some f" and ns: "\<not> isSuccess s"
    by (auto simp add: render_def split: option.splits bool.splits)
  have e: "errors (edits cs s1) = []" by (rule edits_no_errors) (simp add: s1)
  have fr: "form (edits cs s1) = Some f" "\<not> isSuccess (edits cs s1)"
    using f ns by (simp_all add: edits_frame s1)
  have r: "render s2 = FormPanel" "\<not> isSuccess s2" "\<not> isSubmitting s2" "errors s2 = []"
    using e fr by (simp_all add: assms(3) handleSubmit_resume_def render_def)
  have again: "formData s2 = formData s \<and> snd (handleSubmit p s2) = [Insert sub]" if "cs = []"
  proof -
    from that have s2: "s2 = s\<lparr>errors := [], isSubmitting := False\<rparr>"
      by (simp add: assms(3) s1 edits_def handleSubmit_resume_def)
    from assms(2) show ?thesis
      by (auto simp add: s2 handleSubmit_def validateForm_def Let_def split: if_splits)
  qed
  from r again show ?thesis by simp
qed

theorem failed_insert_keeps_form_ready_witness:
  "render (ready [ex_name, ex_email] [(js ''f1'', Str (js ''Ada''))]) = FormPanel
   \<and> snd (handleSubmit ex_props (ready [ex_name, ex_email] [(js ''f1'', Str (js ''Ada''))]))
       = [Insert \<lparr>form_id = js ''r1'', program_id = None, course_id = Some (js ''c7''),
                  responses = [(js ''Name'', Str (js ''Ada'')), (js ''Email'', Str [])]\<rparr>]
   \<and> render (handleSubmit_resume True (edits [(js ''f2'', Str (js ''ada@example.com''))]
        (fst (handleSubmit ex_props (ready [ex_name, ex_email] [(js ''f1'', Str (js ''Ada''))])))))
       = FormPanel
   \<and> errors (handleSubmit_resume True (edits [(js ''f2'', Str (js ''ada@example.com''))]
        (fst (handleSubmit ex_props (ready [ex_name, ex_email] [(js ''f1'', Str (js ''Ada''))])))))
       = []
   \<and> available (handleSubmit_resume True (edits [(js ''f2'', Str (js ''ada@example.com''))]
        (fst (handleSubmit ex_props (ready [ex_name, ex_email] [(js ''f1'', Str (js ''Ada''))])))))
       Submit"
proof -
  let ?s = "ready [ex_name, ex_email] [(js ''f1'', Str (js ''Ada''))]"
  let ?sub = "\<lparr>form_id = js ''r1'', program_id = None, course_id = Some (js ''c7''),
               responses = [(js ''Name'', Str (js ''Ada'')), (js ''Email'', Str [])]\<rparr>"
  let ?s2 = "handleSubmit_resume True (edits [(js ''f2'', Str (js ''ada@example.com''))]
        (fst (handleSubmit ex_props ?s)))"
  have h1: "render ?s = FormPanel" by (simp add: ready_def render_def)
  have c: "snd (handleSubmit ex_props ?s) = [Insert ?sub]" by code_simp
  then have h2: "handleSubmit ex_props ?s = (fst (handleSubmit ex_props ?s), [Insert ?sub])"
    by (simp add: prod_eq_iff)
  have h3: "?s2 = ?s2" ..
  from failed_insert_keeps_form_ready [OF h1 h2 h3] h1 c show ?thesis by blast
qed

text \<open>
  C8, as amended. A close button is on the page exactly when a form definition is held, so
  not while the definition is loading. Where it is, invoking it makes one call, of
  \<^verbatim>\<open>onClose\<close>, and no insert; the modal is removed, the draft with it, and nothing that
  happens afterwards reaches the store. After any history, in any state, a close adds no
  persistence call to those already made.
\<close>

theorem close_discards_draft_without_persisting:
  "(available s Close \<longleftrightarrow> form s \<noteq> None)
   \<and> (available s Close \<longrightarrow> run p (Close # es) (Some s) = (None, [OnClose]))
   \<and> inserts (snd (run p (es0 @ [Close]) m)) = inserts (snd (run p es0 m))"
proof -
  have a: "available s Close \<longleftrightarrow> form s \<noteq> None" by (rule available_Close_iff)
  have b: "run p (Close # es) (Some s) = (None, [OnClose])" if "available s Close"
  proof -
    from that a have "modal_step p Close (Some s) = (None, [OnClose])"
      by (simp add: modal_step_Close del: modal_step.simps)
    then show ?thesis by (simp add: run_None)
  qed
  have c: "inserts (snd (run p (es0 @ [Close]) m)) = inserts (snd (run p es0 m))"
  proof -
    obtain m' fx where r: "run p es0 m = (m', fx)" by (cases "run p es0 m")
    obtain m'' fx' where t: "modal_step p Close m' = (m'', fx')" by (cases "modal_step p Close m'")
    from inserts_modal_step_Close [of p m'] t have "inserts fx' = []" by simp
    with r t show ?thesis by (simp add: run_append inserts_append)
  qed
  from a b c show ?thesis by blast
qed

theorem close_discards_draft_without_persisting_witness:
  "available (ready [ex_name] [(js ''f1'', Str (js ''Ada''))]) Close
   \<and> run ex_props [Close, Submit, InsertAnswered False]
        (Some (ready [ex_name] [(js ''f1'', Str (js ''Ada''))])) = (None, [OnClose])
   \<and> inserts (snd (run ex_props ([Submit] @ [Close])
        (Some (ready [ex_name] [(js ''f1'', Str (js ''Ada''))]))))
     = inserts (snd (run ex_props [Submit]
        (Some (ready [ex_name] [(js ''f1'', Str (js ''Ada''))]))))"
proof -
  let ?s = "ready [ex_name] [(js ''f1'', Str (js ''Ada''))]"
  have f: "form ?s \<noteq> None" by (simp add: ready_def)
  note t = close_discards_draft_without_persisting
    [of ?s ex_props "[Submit, InsertAnswered False]" "[Submit]" "Some ?s"]
  from t f have a: "available ?s Close" by blast
  with t have b: "run ex_props (Close # [Submit, InsertAnswered False]) (Some ?s) = (None, [OnClose])"
    by blast
  from t have c: "inserts (snd (run ex_props ([Submit] @ [Close]) (Some ?s)))
     = inserts (snd (run ex_props [Submit] (Some ?s)))" by blast
  from a b c show ?thesis by blast
qed

text \<open>
  C8 as stated fails in the loading state: the component returns nothing, so there is no
  close action to invoke, and nothing is closed.
\<close>

theorem close_unavailable_while_loading_counterexample:
  "render init = Blank \<and> \<not> available init Close
   \<and> run ex_props [Close] (Some init) = (Some init, [])"
  by (simp add: init_def render_def)

text \<open>
  C9. With unique field identities, the error of a field is a function of the field and
  its own draft value, so every permutation of the field list gives the same error record.
\<close>

theorem validation_order_independent:
  assumes "distinct (map ff_id fs)" and "mset fs' = mset fs"
  shows "map_of (newErrors fs' fd) = map_of (newErrors fs fd)
    \<and> set (newErrors fs' fd) = set (newErrors fs fd)
    \<and> (\<forall>f\<in>set fs. map_of (newErrors fs' fd) (ff_id f) = field_error f (map_of fd (ff_id f)))"
proof -
  from assms have e: "map_of (newErrors fs fd) = map_of (newErrors fs' fd)"
    by (intro newErrors_permute) simp_all
  then have "set (newErrors fs fd) = set (newErrors fs' fd)"
    using distinct_newErrors by (simp add: map_of_inject_set)
  moreover have "\<forall>f\<in>set fs. map_of (newErrors fs fd) (ff_id f) = field_error f (map_of fd (ff_id f))"
    using assms(1) by (simp add: map_of_newErrors_own)
  ultimately show ?thesis using e by simp
qed

theorem validation_order_independent_witness:
  "distinct (map ff_id [ex_name, ex_email])
   \<and> mset [ex_email, ex_name] = mset [ex_name, ex_email]
   \<and> set (newErrors [ex_email, ex_name] [(js ''f2'', Str (js ''x''))])
       = set (newErrors [ex_name, ex_email] [(js ''f2'', Str (js ''x''))])"
proof -
  have h1: "distinct (map ff_id [ex_name, ex_email])" by code_simp
  have h2: "mset [ex_email, ex_name] = mset [ex_name, ex_email]" by simp
  from validation_order_independent [OF h1 h2, of "[(js ''f2'', Str (js ''x''))]"] h1 h2
  show ?thesis by blast
qed

text \<open>
  C10, as amended. A checkbox field whose draft is the empty list passes its own three
  checks even when required; with unique field identities it has no error after validation;
  and when the submit goes through and no later field carries its label, the record handed
  to the insert maps its label to the empty list.
\<close>

theorem empty_checkbox_counts_as_filled:
  assumes "f \<in> set (fields' s)" and "field_type f = js ''checkbox''"
    and "map_of (formData s) (ff_id f) = Some (Arr [])"
  shows "validateField (formData s) f e = e
    \<and> (distinct (map ff_id (fields' s))
         \<longrightarrow> map_of (newErrors (fields' s) (formData s)) (ff_id f) = None)
    \<and> (\<forall>sub pre post. snd (handleSubmit p s) = [Insert sub] \<and> fields' s = pre @ f # post
           \<and> label f \<notin> label ` set post
         \<longrightarrow> map_of (responses sub) (label f) = Some (Arr []))"
proof -
  have a: "validateField (formData s) f e = e"
    using assms(2,3) by (rule validateField_checkbox_empty)
  have b: "map_of (newErrors (fields' s) (formData s)) (ff_id f) = None"
    if "distinct (map ff_id (fields' s))"
    using that assms by (simp add: map_of_newErrors_own field_error_checkbox_empty)
  have c: "map_of (responses sub) (label f) = Some (Arr [])"
    if "snd (handleSubmit p s) = [Insert sub]" "fields' s = pre @ f # post"
       "label f \<notin> label ` set post" for sub pre post
  proof -
    from that(1) have "responses sub = build_responses (fields' s) (formData s)"
      by (simp add: handleSubmit_Insert)
    with that(2,3) assms(3) show ?thesis
      by (simp add: map_of_build_responses_last or_empty_def)
  qed
  from a b c show ?thesis by blast
qed

theorem empty_checkbox_counts_as_filled_witness:
  "ex_topics \<in> set [ex_name, ex_topics] \<and> field_type ex_topics = js ''checkbox''
   \<and> is_required ex_topics
   \<and> map_of [(js ''f1'', Str (js ''Ada'')), (js ''f4'', Arr [])] (ff_id ex_topics) = Some (Arr [])
   \<and> distinct (map ff_id [ex_name, ex_topics])
   \<and> map_of (newErrors [ex_name, ex_topics] [(js ''f1'', Str (js ''Ada'')), (js ''f4'', Arr [])])
        (ff_id ex_topics) = None
   \<and> snd (handleSubmit ex_props
        (ready [ex_name, ex_topics] [(js ''f1'', Str (js ''Ada'')), (js ''f4'', Arr [])]))
       = [Insert \<lparr>form_id = js ''r1'', program_id = None, course_id = Some (js ''c7''),
                  responses = [(js ''Name'', Str (js ''Ada'')), (js ''Topics'', Arr [])]\<rparr>]
   \<and> map_of [(js ''Name'', Str (js ''Ada'')), (js ''Topics'', Arr [])] (label ex_topics)
       = Some (Arr [])"
proof -
  let ?fd = "[(js ''f1'', Str (js ''Ada'')), (js ''f4'', Arr [])]"
  let ?s = "ready [ex_name, ex_topics] ?fd"
  let ?sub = "\<lparr>form_id = js ''r1'', program_id = None, course_id = Some (js ''c7''),
               responses = [(js ''Name'', Str (js ''Ada'')), (js ''Topics'', Arr [])]\<rparr>"
  have f: "fields' ?s = [ex_name, ex_topics]" and d: "formData ?s = ?fd"
    by (simp_all add: ready_def)
  have h1: "ex_topics \<in> set (fields' ?s)" unfolding f by simp
  have h2: "field_type ex_topics = js ''checkbox''" by (simp add: ex_topics_def)
  have h3: "map_of (formData ?s) (ff_id ex_topics) = Some (Arr [])" unfolding d by code_simp
  have r: "is_required ex_topics" by (simp add: ex_topics_def)
  have di: "distinct (map ff_id (fields' ?s))" unfolding f by code_simp
  have c: "snd (handleSubmit ex_props ?s) = [Insert ?sub]" by code_simp
  have a: "fields' ?s = [ex_name] @ ex_topics # []" unfolding f by simp
  have b: "label ex_topics \<notin> label ` set []" by simp
  note t = empty_checkbox_counts_as_filled [OF h1 h2 h3, of "[]" ex_props]
  from t di have n: "map_of (newErrors (fields' ?s) (formData ?s)) (ff_id ex_topics) = None"
    by blast
  note i = t [THEN conjunct2, THEN conjunct2, THEN spec, THEN spec, THEN spec,
      of ?sub "[ex_name]" "[]"]
  from i c a b have m: "map_of (responses ?sub) (label ex_topics) = Some (Arr [])" by blast
  from h1 h2 h3 r di n c m show ?thesis unfolding f d by simp
qed

text \<open>
  C10 as stated fails where a later field carries the same label: the record then holds
  that field's value under the label.
\<close>

theorem empty_checkbox_shared_label_counterexample:
  "field_type ex_topics = js ''checkbox''
   \<and> map_of [(js ''f4'', Arr []), (js ''f5'', Str (js ''x''))] (ff_id ex_topics) = Some (Arr [])
   \<and> snd (handleSubmit ex_props
            (ready [ex_topics, ex_topics_text] [(js ''f4'', Arr []), (js ''f5'', Str (js ''x''))]))
       = [Insert \<lparr>form_id = js ''r1'', program_id = None, course_id = Some (js ''c7''),
                  responses = [(js ''Topics'', Str (js ''x''))]\<rparr>]
   \<and> map_of [(js ''Topics'', Str (js ''x''))] (label ex_topics) \<noteq> Some (Arr [])"
  by code_simp

end
